theory Spec2Isabelle
  imports Complex_Main "HOL-Library.Char_ord" "HOL-Library.List_Lexorder"
begin

section \<open>Python values and strings\<close>

text \<open>
  A Python \<open>float\<close>: a finite value, an infinity or NaN. Rounding is not modelled: finite
  values are reals and arithmetic on them is exact.
\<close>

datatype pyfloat = Fin real | PosInf | NegInf | NaN

text \<open>
  One cell of a pandas frame as the ingester sees it: \<open>None\<close>, a \<open>bool\<close>, an \<open>int\<close>,
  a \<open>float\<close> (\<open>CFloat NaN\<close> is pandas' missing value) or a \<open>str\<close>.
\<close>

datatype cell = CNone | CBool bool | CInt int | CFloat pyfloat | CStr string

text \<open>
  The two functions of the Python runtime whose results on finite floats the ingester
  depends on and the repository does not define: \<open>repr\<close> of a finite float and the
  parser behind \<open>float(text)\<close> (\<open>None\<close> when it raises \<open>ValueError\<close>).
\<close>

record runtime =
  float_repr :: "real \<Rightarrow> string"
  float_parse :: "string \<Rightarrow> pyfloat option"

text \<open>\<open>str.isspace\<close> on ASCII: TAB, LF, VT, FF, CR, FS, GS, RS, US and the space.\<close>

definition is_py_space :: "char \<Rightarrow> bool" where
  "is_py_space c = (let n = (of_char c :: nat) in (9 \<le> n \<and> n \<le> 13) \<or> (28 \<le> n \<and> n \<le> 32))"

text \<open>\<open>str.strip()\<close>: whitespace removed from both ends.\<close>

definition py_strip :: "string \<Rightarrow> string" where
  "py_strip s = rev (dropWhile is_py_space (rev (dropWhile is_py_space s)))"

text \<open>\<open>str.lower()\<close> and SQLite's \<open>LOWER\<close> on ASCII: only \<open>A\<close>..\<open>Z\<close> change.\<close>

definition lower_char :: "char \<Rightarrow> char" where
  "lower_char c = (let n = (of_char c :: nat) in if 65 \<le> n \<and> n \<le> 90 then char_of (n + 32) else c)"

definition lower :: "string \<Rightarrow> string" where
  "lower s = map lower_char s"

text \<open>\<open>str(n)\<close> of an integer: its decimal digits, with a minus sign when negative.\<close>

function str_nat :: "nat \<Rightarrow> string" where
  "str_nat n = (if n < 10 then [char_of (48 + n)] else str_nat (n div 10) @ [char_of (48 + n mod 10)])"
  by pat_completeness auto
termination
  by (relation "measure id") auto

definition str_int :: "int \<Rightarrow> string" where
  "str_int i = (if i < 0 then CHR ''-'' # str_nat (nat (- i)) else str_nat (nat i))"

text \<open>\<open>str(value)\<close> of a cell.\<close>

fun py_str :: "runtime \<Rightarrow> cell \<Rightarrow> string" where
  "py_str rt CNone = ''None''"
| "py_str rt (CBool b) = (if b then ''True'' else ''False'')"
| "py_str rt (CInt i) = str_int i"
| "py_str rt (CFloat (Fin r)) = float_repr rt r"
| "py_str rt (CFloat PosInf) = ''inf''"
| "py_str rt (CFloat NegInf) = ''-inf''"
| "py_str rt (CFloat NaN) = ''nan''"
| "py_str rt (CStr s) = s"

section \<open>Series and frames\<close>

text \<open>
  A pandas \<open>Series\<close> holding one row: its index (the column labels) and the cell stored
  under each label. The source reads \<open>row[col]\<close> only for labels of the index.
\<close>

record series =
  index :: "string list"
  loc :: "string \<Rightarrow> cell"

text \<open>A \<open>DataFrame\<close> as \<open>read_csv\<close> returns it: the columns and the rows in file order.\<close>

record dataframe =
  columns :: "string list"
  data :: "(string \<Rightarrow> cell) list"

definition iterrows :: "dataframe \<Rightarrow> series list" where
  "iterrows df = map (\<lambda>r. \<lparr>index = columns df, loc = r\<rparr>) (data df)"

text \<open>\<open>df.empty\<close>: an axis of length 0.\<close>

definition df_empty :: "dataframe \<Rightarrow> bool" where
  "df_empty df = (columns df = [] \<or> data df = [])"

text \<open>
  \<open>df[col] = df[col].astype(str)\<close>, with the element-wise \<open>str\<close> of pandas before 3.0:
  a missing value becomes the text \<open>nan\<close>.
\<close>

definition astype_str :: "runtime \<Rightarrow> string \<Rightarrow> dataframe \<Rightarrow> dataframe" where
  "astype_str rt col df = df\<lparr>data := map (\<lambda>r. r(col := CStr (py_str rt (r col)))) (data df)\<rparr>"

section \<open>Helpers of the ingester\<close>

fun safe_str :: "runtime \<Rightarrow> cell \<Rightarrow> string option" where
  "safe_str rt CNone = None"
| "safe_str rt (CFloat NaN) = None"
| "safe_str rt v = (let text = py_strip (py_str rt v) in if text = [] then None else Some text)"

fun pick_first_present :: "runtime \<Rightarrow> series \<Rightarrow> string list \<Rightarrow> string option" where
  "pick_first_present rt row [] = None"
| "pick_first_present rt row (col # candidates) =
     (if col \<in> set (index row)
      then (case safe_str rt (loc row col) of
              Some val \<Rightarrow> Some val
            | None \<Rightarrow> pick_first_present rt row candidates)
      else pick_first_present rt row candidates)"

fun find_stimulus_column :: "string list \<Rightarrow> string option" where
  "find_stimulus_column [] = None"
| "find_stimulus_column (col # cols) =
     (if lower (py_strip col) = ''stimulus'' then Some col else find_stimulus_column cols)"

section \<open>Identity building\<close>

record identity =
  unified_odor_id :: string
  slug :: string
  stimulus :: string
  name :: "string option"
  cid :: "string option"
  cas :: "string option"
  smiles :: "string option"

definition CID_CANDIDATES_STIM :: "string list" where
  "CID_CANDIDATES_STIM = [''CID'', ''cid'', ''PubChemCID'', ''pubchem_cid'', ''new_CID'']"

definition CAS_CANDIDATES :: "string list" where
  "CAS_CANDIDATES = [''CAS'', ''cas'', ''CASNo'', ''CASNo.'', ''cas_number'', ''C.A.S.'']"

definition NAME_CANDIDATES :: "string list" where
  "NAME_CANDIDATES = [''name'', ''Name'', ''OdorName'', ''Odorant name'', ''Odorant'',
     ''OdorantName'', ''ChemicalName'']"

definition SMILES_CANDIDATES :: "string list" where
  "SMILES_CANDIDATES = [''IsomericSMILES'', ''SMILES'', ''CanonicalSMILES'']"

text \<open>CID priority: the molecule row's \<open>CID\<close>, then the stimulus row's candidates.\<close>

definition resolve_cid :: "runtime \<Rightarrow> series option \<Rightarrow> series option \<Rightarrow> string option" where
  "resolve_cid rt stim_row mol_row =
     (let cid0 = (case mol_row of
                    Some m \<Rightarrow> (if ''CID'' \<in> set (index m) then safe_str rt (loc m ''CID'') else None)
                  | None \<Rightarrow> None)
      in case cid0 of
           Some c \<Rightarrow> Some c
         | None \<Rightarrow> (case stim_row of
                      Some s \<Rightarrow> pick_first_present rt s CID_CANDIDATES_STIM
                    | None \<Rightarrow> None))"

text \<open>
  The three other fields take the first candidate present in one row, then in the other:
  \<open>first_then rt cands a b\<close> looks in \<open>a\<close> first.
\<close>

definition first_then :: "runtime \<Rightarrow> string list \<Rightarrow> series option \<Rightarrow> series option \<Rightarrow> string option" where
  "first_then rt cands a b =
     (let v0 = (case a of Some r \<Rightarrow> pick_first_present rt r cands | None \<Rightarrow> None)
      in case v0 of
           Some v \<Rightarrow> Some v
         | None \<Rightarrow> (case b of Some r \<Rightarrow> pick_first_present rt r cands | None \<Rightarrow> None))"

definition identity_from_rows ::
  "runtime \<Rightarrow> string \<Rightarrow> string \<Rightarrow> series option \<Rightarrow> series option \<Rightarrow> identity" where
  "identity_from_rows rt slug_v stimulus_v stim_row mol_row =
     (let cid_v = resolve_cid rt stim_row mol_row;
          cas_v = first_then rt CAS_CANDIDATES stim_row mol_row;
          name_v = first_then rt NAME_CANDIDATES mol_row stim_row;
          smiles_v = first_then rt SMILES_CANDIDATES mol_row stim_row;
          uid = (case cid_v of
                   Some c \<Rightarrow> ''CID:'' @ c
                 | None \<Rightarrow> (case cas_v of
                              Some a \<Rightarrow> ''CAS:'' @ a
                            | None \<Rightarrow> ''OID:'' @ slug_v @ '':'' @ stimulus_v))
      in \<lparr>unified_odor_id = uid, slug = slug_v, stimulus = stimulus_v,
          name = (case name_v of Some n \<Rightarrow> Some n | None \<Rightarrow> Some stimulus_v),
          cid = cid_v, cas = cas_v, smiles = smiles_v\<rparr>)"

section \<open>The store\<close>

text \<open>
  The two tables of the schema, rows in insertion order. A fact's autoincrement \<open>id\<close> is
  its position. The fields carry the aliases \<open>o\<close> and \<open>f\<close> that the queries give the tables.
\<close>

record odor_row =
  o_unified_odor_id :: string
  o_slug_first :: "string option"
  o_stimulus_first :: "string option"
  o_name :: "string option"
  o_cid :: "string option"
  o_cas :: "string option"
  o_smiles :: "string option"

record fact_row =
  f_unified_odor_id :: string
  f_slug :: string
  f_file :: string
  f_column :: string
  f_value_text :: "string option"
  f_value_num :: "pyfloat option"

record store =
  odors :: "odor_row list"
  odor_facts :: "fact_row list"

text \<open>\<open>CREATE TABLE IF NOT EXISTS\<close>: the rows already stored stay as they are.\<close>

definition initialize_database :: "store \<Rightarrow> store" where
  "initialize_database conn = conn"

text \<open>SQLite's \<open>TRIM(X)\<close>: spaces (and only spaces) removed from both ends.\<close>

definition sql_trim :: "string \<Rightarrow> string" where
  "sql_trim s = rev (dropWhile (\<lambda>c. c = CHR '' '') (rev (dropWhile (\<lambda>c. c = CHR '' '') s)))"

text \<open>The condition \<open>col IS NULL OR TRIM(col) = ''\<close>.\<close>

definition null_or_blank :: "string option \<Rightarrow> bool" where
  "null_or_blank v = (case v of None \<Rightarrow> True | Some s \<Rightarrow> sql_trim s = [])"

datatype odor_col = COL_name | COL_cid | COL_cas | COL_smiles

fun get_col :: "odor_col \<Rightarrow> odor_row \<Rightarrow> string option" where
  "get_col COL_name r = o_name r"
| "get_col COL_cid r = o_cid r"
| "get_col COL_cas r = o_cas r"
| "get_col COL_smiles r = o_smiles r"

fun set_col :: "odor_col \<Rightarrow> string option \<Rightarrow> odor_row \<Rightarrow> odor_row" where
  "set_col COL_name v r = r\<lparr>o_name := v\<rparr>"
| "set_col COL_cid v r = r\<lparr>o_cid := v\<rparr>"
| "set_col COL_cas v r = r\<lparr>o_cas := v\<rparr>"
| "set_col COL_smiles v r = r\<lparr>o_smiles := v\<rparr>"

text \<open>\<open>INSERT OR IGNORE INTO odors\<close>: nothing happens when the primary key is taken.\<close>

definition insert_or_ignore :: "store \<Rightarrow> identity \<Rightarrow> store" where
  "insert_or_ignore conn ident =
     (if \<exists>r \<in> set (odors conn). o_unified_odor_id r = unified_odor_id ident then conn
      else conn\<lparr>odors := odors conn @
             [\<lparr>o_unified_odor_id = unified_odor_id ident, o_slug_first = Some (slug ident),
               o_stimulus_first = Some (stimulus ident), o_name = name ident, o_cid = cid ident,
               o_cas = cas ident, o_smiles = smiles ident\<rparr>]\<rparr>)"

text \<open>\<open>UPDATE odors SET col = ? WHERE unified_odor_id = ? AND (col IS NULL OR TRIM(col) = '')\<close>.\<close>

definition update_if_blank :: "store \<Rightarrow> odor_col \<Rightarrow> string \<Rightarrow> string \<Rightarrow> store" where
  "update_if_blank conn col v uid =
     conn\<lparr>odors := map (\<lambda>r. if o_unified_odor_id r = uid \<and> null_or_blank (get_col col r)
                              then set_col col (Some v) r else r) (odors conn)\<rparr>"

fun fill_fields :: "store \<Rightarrow> string \<Rightarrow> (odor_col \<times> string option) list \<Rightarrow> store" where
  "fill_fields conn uid [] = conn"
| "fill_fields conn uid ((col, None) # rest) = fill_fields conn uid rest"
| "fill_fields conn uid ((col, Some v) # rest) = fill_fields (update_if_blank conn col v uid) uid rest"

definition upsert_odor :: "store \<Rightarrow> identity \<Rightarrow> store" where
  "upsert_odor conn ident =
     fill_fields (insert_or_ignore conn ident) (unified_odor_id ident)
       [(COL_name, name ident), (COL_cid, cid ident), (COL_cas, cas ident), (COL_smiles, smiles ident)]"

text \<open>\<open>isinstance(value, (int, float))\<close>; a \<open>bool\<close> is an \<open>int\<close>.\<close>

fun is_number :: "cell \<Rightarrow> bool" where
  "is_number (CBool b) = True"
| "is_number (CInt i) = True"
| "is_number (CFloat x) = True"
| "is_number v = False"

text \<open>\<open>float(value)\<close> of a number (exact: no rounding of large integers).\<close>

fun to_float :: "cell \<Rightarrow> pyfloat" where
  "to_float (CBool b) = Fin (if b then 1 else 0)"
| "to_float (CInt i) = Fin (of_int i)"
| "to_float (CFloat x) = x"
| "to_float v = NaN"

definition execute_insert ::
  "store \<Rightarrow> identity \<Rightarrow> string \<Rightarrow> string \<Rightarrow> string \<Rightarrow> string option \<Rightarrow> pyfloat option \<Rightarrow> store" where
  "execute_insert conn ident slug_v filename column value_text value_num =
     conn\<lparr>odor_facts := odor_facts conn @
       [\<lparr>f_unified_odor_id = unified_odor_id ident, f_slug = slug_v, f_file = filename,
         f_column = column, f_value_text = value_text, f_value_num = value_num\<rparr>]\<rparr>"

definition insert_fact ::
  "runtime \<Rightarrow> store \<Rightarrow> identity \<Rightarrow> string \<Rightarrow> string \<Rightarrow> string \<Rightarrow> cell \<Rightarrow> store" where
  "insert_fact rt conn ident slug_v filename column v =
     (if v = CNone then conn
      else if v = CFloat NaN then conn
      else if is_number v then
        execute_insert conn ident slug_v filename column None (Some (to_float v))
      else (case safe_str rt v of
              None \<Rightarrow> conn
            | Some text \<Rightarrow>
                (case float_parse rt text of
                   Some num \<Rightarrow>
                     (if num \<noteq> NaN
                      then execute_insert conn ident slug_v filename column None (Some num)
                      else execute_insert conn ident slug_v filename column (Some text) None)
                 | None \<Rightarrow> execute_insert conn ident slug_v filename column (Some text) None)))"

definition insert_row_as_facts ::
  "runtime \<Rightarrow> store \<Rightarrow> identity \<Rightarrow> string \<Rightarrow> string \<Rightarrow> series option \<Rightarrow> string list \<Rightarrow> store" where
  "insert_row_as_facts rt conn ident slug_v filename row skip_cols =
     (case row of
        None \<Rightarrow> conn
      | Some r \<Rightarrow>
          foldl (\<lambda>c col. if lower (py_strip col) \<in> set (map (\<lambda>k. lower (py_strip k)) skip_cols) then c
                          else insert_fact rt c ident slug_v filename col (loc r col))
            conn (index r))"

section \<open>Dataset folders\<close>

text \<open>
  A dataset folder as \<open>os.listdir\<close> lists it: each file name with what \<open>pd.read_csv\<close>
  returns for it (\<open>None\<close> when it raises). The datasets root maps a slug to its folder,
  \<open>None\<close> when the slug is not a directory.
\<close>

type_synonym directory = "(string \<times> dataframe option) list"

definition MAX_ROWS_PER_DATASET :: nat where
  "MAX_ROWS_PER_DATASET = 5000"

definition startswith :: "string \<Rightarrow> string \<Rightarrow> bool" where
  "startswith s p = (take (length p) s = p)"

definition endswith :: "string \<Rightarrow> string \<Rightarrow> bool" where
  "endswith s p = (drop (length s - length p) s = p)"

definition is_behavior_csv :: "string \<Rightarrow> bool" where
  "is_behavior_csv fname = (startswith (lower fname) ''behavior'' \<and> endswith (lower fname) ''.csv'')"

fun count_loop :: "nat \<Rightarrow> directory \<Rightarrow> nat" where
  "count_loop tot [] = tot"
| "count_loop tot ((fname, f) # rest) =
     (if \<not> is_behavior_csv fname then count_loop tot rest
      else (case f of
              None \<Rightarrow> count_loop tot rest
            | Some df \<Rightarrow> count_loop (tot + length (data df)) rest))"

definition count_behavior_rows :: "directory \<Rightarrow> nat" where
  "count_behavior_rows slug_dir = count_loop 0 slug_dir"

definition load_stimuli :: "directory \<Rightarrow> dataframe option" where
  "load_stimuli slug_dir =
     (case map_of slug_dir ''stimuli.csv'' of
        None \<Rightarrow> None
      | Some None \<Rightarrow> None
      | Some (Some df) \<Rightarrow>
          (if df_empty df then None
           else (case find_stimulus_column (columns df) of None \<Rightarrow> None | Some stim_col \<Rightarrow> Some df)))"

definition load_molecules :: "runtime \<Rightarrow> directory \<Rightarrow> dataframe option" where
  "load_molecules rt slug_dir =
     (case map_of slug_dir ''molecules.csv'' of
        None \<Rightarrow> None
      | Some None \<Rightarrow> None
      | Some (Some df) \<Rightarrow>
          (if df_empty df then None
           else if ''CID'' \<notin> set (columns df) then None
           else Some (astype_str rt ''CID'' df)))"

text \<open>The first row whose cell under \<open>col\<close>, as a string, equals \<open>key\<close>.\<close>

definition first_match :: "runtime \<Rightarrow> dataframe \<Rightarrow> string \<Rightarrow> string \<Rightarrow> series option" where
  "first_match rt df col key =
     (case filter (\<lambda>r. py_str rt (loc r col) = key) (iterrows df) of
        [] \<Rightarrow> None
      | r # matches \<Rightarrow> Some r)"

definition get_stimulus_row :: "runtime \<Rightarrow> dataframe option \<Rightarrow> string \<Rightarrow> series option" where
  "get_stimulus_row rt stim_df stimulus_value =
     (case stim_df of
        None \<Rightarrow> None
      | Some df \<Rightarrow>
          (case find_stimulus_column (columns df) of
             None \<Rightarrow> None
           | Some stim_col \<Rightarrow>
               (if stim_col \<noteq> [] \<and> stim_col \<in> set (columns df)
                then first_match rt df stim_col stimulus_value else None)))"

definition get_molecule_row :: "runtime \<Rightarrow> dataframe option \<Rightarrow> string option \<Rightarrow> series option" where
  "get_molecule_row rt mol_df cid_v =
     (case mol_df of
        None \<Rightarrow> None
      | Some df \<Rightarrow> (case cid_v of None \<Rightarrow> None | Some c \<Rightarrow> first_match rt df ''CID'' c))"

section \<open>Ingesting one dataset\<close>

text \<open>
  What the loops of \<open>ingest_dataset\<close> carry: the connection, the identity cache of the
  run (keyed by the raw stimulus label) and the two counters of the final message.
\<close>

record run =
  conn_of :: store
  identity_cache :: "string \<rightharpoonup> identity"
  odors_seen :: nat
  facts_seen :: nat

text \<open>The cache miss: resolve the identity, upsert it and write the two matched rows.\<close>

definition resolve_new ::
  "runtime \<Rightarrow> string \<Rightarrow> dataframe option \<Rightarrow> dataframe option \<Rightarrow> string \<Rightarrow> run \<Rightarrow> string
     \<Rightarrow> run \<times> identity" where
  "resolve_new rt slug_v stim_df mol_df stim_col st stim_value =
     (let stim_row = get_stimulus_row rt stim_df stim_value;
          cid_from_stim = (case stim_row of
                             None \<Rightarrow> None
                           | Some r \<Rightarrow> pick_first_present rt r CID_CANDIDATES_STIM);
          mol_row = get_molecule_row rt mol_df cid_from_stim;
          ident = identity_from_rows rt slug_v stim_value stim_row mol_row;
          c1 = upsert_odor (conn_of st) ident;
          c2 = insert_row_as_facts rt c1 ident slug_v ''stimuli.csv'' stim_row [stim_col];
          c3 = insert_row_as_facts rt c2 ident slug_v ''molecules.csv'' mol_row [''CID'']
      in (st\<lparr>conn_of := c3, identity_cache := (identity_cache st)(stim_value \<mapsto> ident),
             odors_seen := odors_seen st + 1\<rparr>, ident))"

text \<open>The inner loop over the columns of one measurement row.\<close>

definition insert_measurements ::
  "runtime \<Rightarrow> string \<Rightarrow> string \<Rightarrow> string list \<Rightarrow> string \<Rightarrow> identity \<Rightarrow> series \<Rightarrow> run \<Rightarrow> run" where
  "insert_measurements rt slug_v fname cols stim_col ident row st =
     foldl (\<lambda>s col. if col = stim_col then s
                     else s\<lparr>conn_of := insert_fact rt (conn_of s) ident slug_v fname col (loc row col),
                            facts_seen := facts_seen s + 1\<rparr>)
       st cols"

text \<open>The body of \<open>for _, row in df.iterrows()\<close>.\<close>

definition ingest_row ::
  "runtime \<Rightarrow> string \<Rightarrow> string \<Rightarrow> dataframe option \<Rightarrow> dataframe option \<Rightarrow> string list \<Rightarrow> string
     \<Rightarrow> run \<Rightarrow> series \<Rightarrow> run" where
  "ingest_row rt slug_v fname stim_df mol_df cols stim_col st row =
     (case safe_str rt (loc row stim_col) of
        None \<Rightarrow> st
      | Some stim_value \<Rightarrow>
          (case identity_cache st stim_value of
             Some ident \<Rightarrow> insert_measurements rt slug_v fname cols stim_col ident row st
           | None \<Rightarrow>
               (case resolve_new rt slug_v stim_df mol_df stim_col st stim_value of
                  (st1, ident) \<Rightarrow> insert_measurements rt slug_v fname cols stim_col ident row st1)))"

text \<open>The body of \<open>for fname in sorted(os.listdir(slug_dir))\<close>.\<close>

definition ingest_file ::
  "runtime \<Rightarrow> string \<Rightarrow> dataframe option \<Rightarrow> dataframe option \<Rightarrow> run
     \<Rightarrow> string \<times> dataframe option \<Rightarrow> run" where
  "ingest_file rt slug_v stim_df mol_df st entry =
     (case entry of
        (fname, f) \<Rightarrow>
          (if \<not> is_behavior_csv fname then st
           else (case f of
                   None \<Rightarrow> st
                 | Some df0 \<Rightarrow>
                     (if df_empty df0 then st
                      else (case find_stimulus_column (columns df0) of
                              None \<Rightarrow> st
                            | Some stim_col \<Rightarrow>
                                (let df = astype_str rt stim_col df0
                                 in foldl (ingest_row rt slug_v fname stim_df mol_df (columns df) stim_col)
                                      st (iterrows df)))))))"

definition ingest_dataset :: "runtime \<Rightarrow> store \<Rightarrow> (string \<rightharpoonup> directory) \<Rightarrow> string \<Rightarrow> store" where
  "ingest_dataset rt conn datasets_root slug_v =
     (case datasets_root slug_v of
        None \<Rightarrow> conn
      | Some slug_dir \<Rightarrow>
          (let conn1 = initialize_database conn;
               total_rows = count_behavior_rows slug_dir
           in if total_rows > MAX_ROWS_PER_DATASET then conn1
              else (let stim_df = load_stimuli slug_dir;
                        mol_df = load_molecules rt slug_dir
                    in conn_of (foldl (ingest_file rt slug_v stim_df mol_df)
                                  \<lparr>conn_of = conn1, identity_cache = Map.empty, odors_seen = 0,
                                   facts_seen = 0\<rparr>
                                  (sort_key fst slug_dir)))))"

section \<open>Descriptor search\<close>

text \<open>
  SQLite's \<open>LIKE\<close>, pattern first: \<open>%\<close> matches any run of characters, \<open>_\<close> any one
  character, and any other character matches itself up to ASCII case.
\<close>

fun like :: "string \<Rightarrow> string \<Rightarrow> bool" where
  "like [] [] = True"
| "like [] (c # cs) = False"
| "like (p # ps) [] = (p = CHR ''%'' \<and> like ps [])"
| "like (p # ps) (c # cs) =
     (if p = CHR ''%'' then like ps (c # cs) \<or> like (p # ps) cs
      else (p = CHR ''_'' \<or> lower_char p = lower_char c) \<and> like ps cs)"

text \<open>The key of \<open>ORDER BY COALESCE(o.name, o.stimulus_first, o.unified_odor_id)\<close>.\<close>

definition order_key :: "odor_row \<Rightarrow> string" where
  "order_key o_row =
     (case o_name o_row of
        Some n \<Rightarrow> n
      | None \<Rightarrow> (case o_stimulus_first o_row of Some s \<Rightarrow> s | None \<Rightarrow> o_unified_odor_id o_row))"

text \<open>The \<open>WHERE\<close> clause on one fact; \<open>if dataset:\<close> adds the slug test.\<close>

definition fact_matches :: "string \<Rightarrow> string option \<Rightarrow> fact_row \<Rightarrow> bool" where
  "fact_matches q_value dataset f =
     (like ''%descriptor%'' (lower (f_column f))
      \<and> like (lower q_value) (case f_value_text f of Some t \<Rightarrow> lower t | None \<Rightarrow> [])
      \<and> (case dataset of
           None \<Rightarrow> True
         | Some d \<Rightarrow> (if d \<noteq> [] then f_slug f = d else True)))"

definition descriptor_search :: "store \<Rightarrow> string \<Rightarrow> string option \<Rightarrow> int option \<Rightarrow> odor_row list" where
  "descriptor_search conn text dataset limit =
     (let q_value = ''%'' @ py_strip text @ ''%'';
          joined = concat (map (\<lambda>o_row.
                      map (\<lambda>f. (o_row, f))
                        (filter (\<lambda>f. f_unified_odor_id f = o_unified_odor_id o_row) (odor_facts conn)))
                    (odors conn));
          selected = remdups (map fst (filter (\<lambda>(o_row, f). fact_matches q_value dataset f) joined));
          ordered = sort_key order_key selected
      in case limit of
           None \<Rightarrow> ordered
         | Some n \<Rightarrow> (if n < 0 then ordered else take (nat n) ordered))"

section \<open>The wide view\<close>

text \<open>Float addition and division by a positive count, exact on finite values.\<close>

fun fadd :: "pyfloat \<Rightarrow> pyfloat \<Rightarrow> pyfloat" where
  "fadd (Fin a) (Fin b) = Fin (a + b)"
| "fadd NaN y = NaN"
| "fadd x NaN = NaN"
| "fadd PosInf NegInf = NaN"
| "fadd NegInf PosInf = NaN"
| "fadd PosInf y = PosInf"
| "fadd NegInf y = NegInf"
| "fadd x PosInf = PosInf"
| "fadd x NegInf = NegInf"

fun fdiv_count :: "pyfloat \<Rightarrow> nat \<Rightarrow> pyfloat" where
  "fdiv_count (Fin a) n = Fin (a / real n)"
| "fdiv_count x n = x"

text \<open>\<open>sep.join(xs)\<close>.\<close>

fun join :: "string \<Rightarrow> string list \<Rightarrow> string" where
  "join sep [] = []"
| "join sep [x] = x"
| "join sep (x # y # ys) = x @ sep @ join sep (y # ys)"

text \<open>
  The aggregate that \<open>details_section\<close> computes for the values of one
  \<open>(slug, file, column)\<close> group: a float or a text.
\<close>

definition details_section_agg :: "runtime \<Rightarrow> cell list \<Rightarrow> cell" where
  "details_section_agg rt vals =
     (let numeric_vals = filter is_number vals
      in if numeric_vals \<noteq> [] \<and> length numeric_vals = length vals
         then CFloat (fdiv_count (foldl fadd (Fin 0) (map to_float numeric_vals)) (length numeric_vals))
         else (let text_vals = map (py_str rt) (filter (\<lambda>v. v \<noteq> CNone) vals)
               in CStr (join ''; '' (sort (remdups text_vals)))))"

section \<open>Auxiliary notions and example data\<close>

text \<open>
  \<open>keeps r r'\<close>: row \<open>r'\<close> is row \<open>r\<close> with at most some null or blank descriptive
  fields filled in.
\<close>

definition keeps :: "odor_row \<Rightarrow> odor_row \<Rightarrow> bool" where
  "keeps r r' = (o_unified_odor_id r' = o_unified_odor_id r
     \<and> o_slug_first r' = o_slug_first r \<and> o_stimulus_first r' = o_stimulus_first r
     \<and> (\<forall>col. \<not> null_or_blank (get_col col r) \<longrightarrow> get_col col r' = get_col col r))"

text \<open>A runtime for the examples: it knows the floats \<open>3.2\<close> and \<open>inf\<close>.\<close>

definition example_runtime :: runtime where
  "example_runtime = \<lparr>float_repr = (\<lambda>r. if r = 3.2 then ''3.2'' else ''0.0''),
     float_parse = (\<lambda>s. if s = ''3.2'' then Some (Fin 3.2)
                         else if s = ''inf'' then Some PosInf else None)\<rparr>"

definition example_stim_row :: series where
  "example_stim_row = \<lparr>index = [''Stimulus'', ''CID'', ''CAS''],
     loc = (\<lambda>c. if c = ''Stimulus'' then CStr ''1'' else if c = ''CID'' then CInt 7410
                 else if c = ''CAS'' then CStr ''98-86-2'' else CNone)\<rparr>"

definition example_cas_row :: series where
  "example_cas_row = \<lparr>index = [''Stimulus'', ''CAS''],
     loc = (\<lambda>c. if c = ''Stimulus'' then CStr ''1''
                 else if c = ''CAS'' then CStr '' 98-86-2 '' else CNone)\<rparr>"

definition example_ident :: identity where
  "example_ident = \<lparr>unified_odor_id = ''CID:7410'', slug = ''keller_2016'', stimulus = ''17'',
     name = Some ''methyl phenyl ketone'', cid = Some ''7410'', cas = Some ''98-86-2'',
     smiles = None\<rparr>"

definition example_store :: store where
  "example_store = \<lparr>odors = [\<lparr>o_unified_odor_id = ''CID:7410'', o_slug_first = Some ''abraham_2012'',
       o_stimulus_first = Some ''1'', o_name = Some ''acetophenone'', o_cid = Some ''7410'',
       o_cas = None, o_smiles = Some '' ''\<rparr>],
     odor_facts = []\<rparr>"

definition empty_store :: store where
  "empty_store = \<lparr>odors = [], odor_facts = []\<rparr>"

text \<open>A written fact holds exactly one of \<open>value_text\<close> and \<open>value_num\<close>.\<close>

definition exactly_one_value :: "fact_row \<Rightarrow> bool" where
  "exactly_one_value f =
     (case (f_value_text f, f_value_num f) of
        (Some t, None) \<Rightarrow> True
      | (None, Some x) \<Rightarrow> True
      | (Some t, Some x) \<Rightarrow> False
      | (None, None) \<Rightarrow> False)"

text \<open>\<open>appends_ok c c'\<close>: store \<open>c'\<close> has the facts of \<open>c\<close> followed by well-formed new ones.\<close>

definition appends_ok :: "store \<Rightarrow> store \<Rightarrow> bool" where
  "appends_ok c c' = (\<exists>new. odor_facts c' = odor_facts c @ new \<and> list_all exactly_one_value new)"

text \<open>
  The rows one folder entry contributes to the gate, in the words of the specification: the
  row count of a file whose name starts with \<open>behavior\<close> (any case) and ends in \<open>.csv\<close>;
  a file that cannot be read has no rows to count.
\<close>

definition behavior_rows :: "string \<times> dataframe option \<Rightarrow> nat" where
  "behavior_rows entry =
     (case entry of
        (fname, f) \<Rightarrow>
          (if is_behavior_csv fname then (case f of None \<Rightarrow> 0 | Some df \<Rightarrow> length (data df)) else 0))"

definition big_folder :: directory where
  "big_folder = [(''notes.txt'', None),
     (''Behavior_1.CSV'', Some \<lparr>columns = [''Stimulus''], data = replicate 5001 (\<lambda>c. CStr ''x'')\<rparr>)]"














text \<open>
  The matching rule in the words of the specification: \<open>is_substring t s\<close> holds when
  \<open>t\<close> occurs in \<open>s\<close> as a contiguous substring, and a fact matches when its column name
  contains \<open>descriptor\<close> and its text value contains the search text, both up to ASCII
  case, and its slug is the requested dataset when one is given. A fact without a text
  value never matches.
\<close>

fun is_substring :: "string \<Rightarrow> string \<Rightarrow> bool" where
  "is_substring t [] = (t = [])"
| "is_substring t (c # cs) = (startswith (c # cs) t \<or> is_substring t cs)"

definition spec_fact_matches :: "string \<Rightarrow> string option \<Rightarrow> fact_row \<Rightarrow> bool" where
  "spec_fact_matches text dataset f =
     (is_substring ''descriptor'' (lower (f_column f))
      \<and> (case f_value_text f of None \<Rightarrow> False | Some tv \<Rightarrow> is_substring (lower text) (lower tv))
      \<and> (case dataset of None \<Rightarrow> True | Some d \<Rightarrow> f_slug f = d))"

text \<open>A store whose only descriptor-like fact is numeric.\<close>

definition numeric_store :: store where
  "numeric_store = \<lparr>odors = [\<lparr>o_unified_odor_id = ''CID:7410'', o_slug_first = Some ''keller_2016'',
       o_stimulus_first = Some ''17'', o_name = Some ''acetophenone'', o_cid = Some ''7410'',
       o_cas = None, o_smiles = None\<rparr>],
     odor_facts = [\<lparr>f_unified_odor_id = ''CID:7410'', f_slug = ''keller_2016'',
       f_file = ''behavior_1.csv'', f_column = ''Descriptor_score'', f_value_text = None,
       f_value_num = Some (Fin 3.2)\<rparr>]\<rparr>"

text \<open>A store with a textual descriptor for one odor and a numeric one for another.\<close>

definition citrus_odor :: odor_row where
  "citrus_odor = \<lparr>o_unified_odor_id = ''CID:440917'', o_slug_first = Some ''keller_2016'',
     o_stimulus_first = Some ''3'', o_name = Some ''limonene'', o_cid = Some ''440917'',
     o_cas = None, o_smiles = None\<rparr>"

definition citrus_store :: store where
  "citrus_store = \<lparr>odors = odors numeric_store @ [citrus_odor],
     odor_facts = odor_facts numeric_store @
       [\<lparr>f_unified_odor_id = ''CID:440917'', f_slug = ''keller_2016'', f_file = ''behavior_1.csv'',
         f_column = ''Descriptors'', f_value_text = Some ''Sweet; Citrus'', f_value_num = None\<rparr>]\<rparr>"

section \<open>Evaluation of the string functions\<close>

lemmas string_eval = lower_def lower_char_def char_of_def bit_Suc_0_iff py_strip_def
  is_py_space_def str_int_def sql_trim_def

section \<open>Identity keys\<close>

lemma oid_key_inj:
  assumes "CHR '':'' \<notin> set s1" "CHR '':'' \<notin> set s2" "s1 @ '':'' @ l1 = s2 @ '':'' @ l2"
  shows "s1 = s2 \<and> l1 = l2"
proof -
  have "takeWhile (\<lambda>c. c \<noteq> CHR '':'') (s1 @ CHR '':'' # l1) = s1"
    using assms(1) by (auto simp: takeWhile_tail)
  moreover have "takeWhile (\<lambda>c. c \<noteq> CHR '':'') (s2 @ CHR '':'' # l2) = s2"
    using assms(2) by (auto simp: takeWhile_tail)
  ultimately have "s1 = s2" using assms(3) by simp
  with assms(3) show ?thesis by simp
qed

lemma ex_cid: "resolve_cid example_runtime (Some example_stim_row) None = Some ''7410''"
  by (simp add: resolve_cid_def example_stim_row_def CID_CANDIDATES_STIM_def string_eval)

lemma ex_cas:
  "resolve_cid example_runtime (Some example_cas_row) None = None"
  "first_then example_runtime CAS_CANDIDATES (Some example_cas_row) None = Some ''98-86-2''"
  by (simp_all add: resolve_cid_def first_then_def example_cas_row_def CID_CANDIDATES_STIM_def
      CAS_CANDIDATES_def string_eval)

lemma ex_none:
  "resolve_cid example_runtime None None = None"
  "first_then example_runtime CAS_CANDIDATES None None = None"
  by (simp_all add: resolve_cid_def first_then_def)

text \<open>
  C1 (as amended). The key of a resolved identity follows the priority CID, then CAS, then
  \<open>OID:<slug>:<label>\<close>. Two resolutions with the same CID get the same key whatever their
  slugs and labels. Two resolutions with neither CID nor CAS and distinct slugs get distinct
  keys when their labels are equal or when neither slug contains a colon.
\<close>

theorem identity_key_priority:
  "(resolve_cid rt sr mr = Some c \<longrightarrow>
       unified_odor_id (identity_from_rows rt s l sr mr) = ''CID:'' @ c)
    \<and> (resolve_cid rt sr mr = None \<and> first_then rt CAS_CANDIDATES sr mr = Some a \<longrightarrow>
       unified_odor_id (identity_from_rows rt s l sr mr) = ''CAS:'' @ a)
    \<and> (resolve_cid rt sr mr = None \<and> first_then rt CAS_CANDIDATES sr mr = None \<longrightarrow>
       unified_odor_id (identity_from_rows rt s l sr mr) = ''OID:'' @ s @ '':'' @ l)
    \<and> (resolve_cid rt sr mr = Some c \<and> resolve_cid rt sr' mr' = Some c \<longrightarrow>
       unified_odor_id (identity_from_rows rt s l sr mr)
         = unified_odor_id (identity_from_rows rt s' l' sr' mr'))
    \<and> (resolve_cid rt sr mr = None \<and> first_then rt CAS_CANDIDATES sr mr = None
        \<and> resolve_cid rt sr' mr' = None \<and> first_then rt CAS_CANDIDATES sr' mr' = None
        \<and> s \<noteq> s' \<and> (l = l' \<or> (CHR '':'' \<notin> set s \<and> CHR '':'' \<notin> set s')) \<longrightarrow>
       unified_odor_id (identity_from_rows rt s l sr mr)
         \<noteq> unified_odor_id (identity_from_rows rt s' l' sr' mr'))"
  using oid_key_inj[of s s' l l']
  by (auto simp: identity_from_rows_def Let_def)

theorem identity_key_priority_witness:
  "unified_odor_id (identity_from_rows example_runtime ''abraham_2012'' ''1'' (Some example_stim_row) None)
     = ''CID:7410''
   \<and> unified_odor_id (identity_from_rows example_runtime ''abraham_2012'' ''1'' (Some example_stim_row) None)
     = unified_odor_id (identity_from_rows example_runtime ''other'' ''x'' (Some example_stim_row) None)
   \<and> unified_odor_id (identity_from_rows example_runtime ''abraham_2012'' ''1'' (Some example_cas_row) None)
     = ''CAS:98-86-2''
   \<and> unified_odor_id (identity_from_rows example_runtime ''abraham_2012'' ''1'' None None)
     = ''OID:abraham_2012:1''
   \<and> unified_odor_id (identity_from_rows example_runtime ''abraham_2012'' ''1'' None None)
     \<noteq> unified_odor_id (identity_from_rows example_runtime ''keller_2016'' ''1'' None None)"
proof -
  note p1 = identity_key_priority[where rt = example_runtime and sr = "Some example_stim_row"
      and mr = None and c = "''7410''" and s = "''abraham_2012''" and l = "''1''" and s' = "''other''"
      and l' = "''x''" and sr' = "Some example_stim_row" and mr' = None]
  note p2 = identity_key_priority[where rt = example_runtime and sr = "Some example_cas_row"
      and mr = None and a = "''98-86-2''" and s = "''abraham_2012''" and l = "''1''"]
  note p3 = identity_key_priority[where rt = example_runtime and sr = None and mr = None
      and s = "''abraham_2012''" and l = "''1''" and s' = "''keller_2016''" and l' = "''1''"
      and sr' = None and mr' = None]
  have a: "unified_odor_id (identity_from_rows example_runtime ''abraham_2012'' ''1''
             (Some example_stim_row) None) = ''CID:7410''"
    using conjunct1[OF p1, THEN mp, OF ex_cid] by simp
  have b: "unified_odor_id (identity_from_rows example_runtime ''abraham_2012'' ''1''
             (Some example_stim_row) None)
           = unified_odor_id (identity_from_rows example_runtime ''other'' ''x''
             (Some example_stim_row) None)"
    using p1 ex_cid by blast
  have c: "unified_odor_id (identity_from_rows example_runtime ''abraham_2012'' ''1''
             (Some example_cas_row) None) = ''CAS:98-86-2''"
    using conjunct1[OF conjunct2[OF p2], THEN mp, OF conjI[OF ex_cas]] by simp
  have d: "unified_odor_id (identity_from_rows example_runtime ''abraham_2012'' ''1'' None None)
           = ''OID:abraham_2012:1''"
    using conjunct1[OF conjunct2[OF conjunct2[OF p3]], THEN mp, OF conjI[OF ex_none]] by simp
  have ne: "''abraham_2012'' \<noteq> ''keller_2016''" by simp
  have e: "unified_odor_id (identity_from_rows example_runtime ''abraham_2012'' ''1'' None None)
     \<noteq> unified_odor_id (identity_from_rows example_runtime ''keller_2016'' ''1'' None None)"
    using p3 ex_none ne by blast
  from a b c d e show ?thesis by blast
qed

text \<open>
  The claim as stated fails: the slugs \<open>a\<close> and \<open>a:b\<close> are distinct, neither record has a
  CID or a CAS, and the labels \<open>b:c\<close> and \<open>c\<close> give both the key \<open>OID:a:b:c\<close>.
\<close>

theorem identity_key_counterexample:
  "resolve_cid example_runtime None None = None
   \<and> first_then example_runtime CAS_CANDIDATES None None = None
   \<and> ''a'' \<noteq> ''a:b''
   \<and> unified_odor_id (identity_from_rows example_runtime ''a'' ''b:c'' None None)
     = unified_odor_id (identity_from_rows example_runtime ''a:b'' ''c'' None None)"
  by (simp add: identity_from_rows_def resolve_cid_def first_then_def)

section \<open>Upserting an identity\<close>

lemma odors_update_if_blank:
  "odors (update_if_blank conn col v uid) =
     map (\<lambda>r. if o_unified_odor_id r = uid \<and> null_or_blank (get_col col r)
               then set_col col (Some v) r else r) (odors conn)"
  by (simp add: update_if_blank_def)

lemma facts_update_if_blank: "odor_facts (update_if_blank conn col v uid) = odor_facts conn"
  by (simp add: update_if_blank_def)

lemma keeps_refl: "keeps r r"
  by (simp add: keeps_def)

lemma keeps_trans: "keeps a b \<Longrightarrow> keeps b c \<Longrightarrow> keeps a c"
  by (auto simp: keeps_def)

lemma get_set_col: "get_col c (set_col c' v r) = (if c = c' then v else get_col c r)"
  by (cases c; cases c') simp_all

lemma set_col_keys:
  "o_unified_odor_id (set_col c v r) = o_unified_odor_id r"
  "o_slug_first (set_col c v r) = o_slug_first r"
  "o_stimulus_first (set_col c v r) = o_stimulus_first r"
  by (cases c; simp)+

lemma keeps_set_col: "null_or_blank (get_col c r) \<Longrightarrow> keeps r (set_col c v r)"
  by (auto simp: keeps_def get_set_col set_col_keys)

lemma keeps_update_if_blank:
  "list_all2 keeps (odors conn) (odors (update_if_blank conn col v uid))"
  by (auto simp: odors_update_if_blank list_all2_conv_all_nth keeps_refl keeps_set_col)

lemma list_all2_keeps_trans:
  "list_all2 keeps xs ys \<Longrightarrow> list_all2 keeps ys zs \<Longrightarrow> list_all2 keeps xs zs"
  by (rule list_all2_trans[where ?P1.0 = keeps and ?P2.0 = keeps]) (auto intro: keeps_trans)

lemma keeps_fill_fields:
  "list_all2 keeps (odors conn) (odors (fill_fields conn uid fs))"
proof (induction conn uid fs rule: fill_fields.induct)
  case (1 conn uid)
  then show ?case by (simp add: list_all2_conv_all_nth keeps_refl)
next
  case (2 conn uid col rest)
  then show ?case by simp
next
  case (3 conn uid col v rest)
  then show ?case
    using keeps_update_if_blank[of conn col v uid] list_all2_keeps_trans by fastforce
qed

lemma facts_fill_fields: "odor_facts (fill_fields conn uid fs) = odor_facts conn"
  by (induction conn uid fs rule: fill_fields.induct) (simp_all add: facts_update_if_blank)

lemma odors_insert_or_ignore:
  "\<exists>new. odors (insert_or_ignore conn ident) = odors conn @ new"
  by (simp add: insert_or_ignore_def)

lemma facts_upsert_odor: "odor_facts (upsert_odor conn ident) = odor_facts conn"
  by (simp add: upsert_odor_def facts_fill_fields insert_or_ignore_def)

lemma keeps_upsert_odor:
  "\<exists>new. list_all2 keeps (odors conn @ new) (odors (upsert_odor conn ident))"
proof -
  obtain new where n: "odors (insert_or_ignore conn ident) = odors conn @ new"
    using odors_insert_or_ignore by blast
  have "list_all2 keeps (odors (insert_or_ignore conn ident)) (odors (upsert_odor conn ident))"
    unfolding upsert_odor_def by (rule keeps_fill_fields)
  with n show ?thesis by auto
qed

lemma keeps_nth_upsert:
  assumes "i < length (odors conn)"
  shows "i < length (odors (upsert_odor conn ident))
     \<and> keeps (odors conn ! i) (odors (upsert_odor conn ident) ! i)"
proof -
  obtain new where k: "list_all2 keeps (odors conn @ new) (odors (upsert_odor conn ident))"
    using keeps_upsert_odor by blast
  then have len: "length (odors conn @ new) = length (odors (upsert_odor conn ident))"
    by (rule list_all2_lengthD)
  from k assms have "keeps ((odors conn @ new) ! i) (odors (upsert_odor conn ident) ! i)"
    by (auto simp: list_all2_conv_all_nth)
  with assms len show ?thesis by (auto simp: nth_append)
qed

lemma keeps_nth_upserts:
  "i < length (odors conn) \<Longrightarrow>
     i < length (odors (foldl upsert_odor conn idents))
     \<and> keeps (odors conn ! i) (odors (foldl upsert_odor conn idents) ! i)"
proof (induction idents arbitrary: conn)
  case Nil
  then show ?case by (simp add: keeps_refl)
next
  case (Cons a idents)
  from keeps_nth_upsert[OF Cons.prems, of a]
  have 1: "i < length (odors (upsert_odor conn a))"
    and 2: "keeps (odors conn ! i) (odors (upsert_odor conn a) ! i)" by auto
  from Cons.IH[OF 1] 2 show ?case by (auto intro: keeps_trans)
qed

text \<open>
  C2. Through any sequence of identity upserts, the odor row stored at a position stays at
  that position with its key, and each of its fields name, cid, cas, smiles changes only if it
  was null or blank (\<open>TRIM\<close> empty) before: a stored non-blank value is never replaced.
\<close>

theorem upsert_fill_only:
  assumes "i < length (odors conn)"
  shows "i < length (odors (foldl upsert_odor conn idents))
     \<and> o_unified_odor_id (odors (foldl upsert_odor conn idents) ! i)
         = o_unified_odor_id (odors conn ! i)
     \<and> (\<forall>col. get_col col (odors (foldl upsert_odor conn idents) ! i) \<noteq> get_col col (odors conn ! i)
           \<longrightarrow> null_or_blank (get_col col (odors conn ! i)))
     \<and> (\<forall>col v. get_col col (odors conn ! i) = Some v \<and> sql_trim v \<noteq> []
           \<longrightarrow> get_col col (odors (foldl upsert_odor conn idents) ! i) = Some v)"
  using keeps_nth_upserts[OF assms, of idents]
  by (auto simp: keeps_def null_or_blank_def)

theorem upsert_fill_only_witness:
  "0 < length (odors example_store)
   \<and> get_col COL_name (odors example_store ! 0) = Some ''acetophenone''
   \<and> sql_trim ''acetophenone'' \<noteq> []
   \<and> name example_ident = Some ''methyl phenyl ketone''
   \<and> unified_odor_id example_ident = o_unified_odor_id (odors example_store ! 0)
   \<and> get_col COL_name (odors (foldl upsert_odor example_store [example_ident, example_ident]) ! 0)
       = Some ''acetophenone''"
proof -
  have h: "0 < length (odors example_store)"
    by (simp add: example_store_def)
  have g: "get_col COL_name (odors example_store ! 0) = Some ''acetophenone''"
    by (simp add: example_store_def)
  have t: "sql_trim ''acetophenone'' \<noteq> []"
    by (simp add: sql_trim_def)
  have n: "name example_ident = Some ''methyl phenyl ketone''
      \<and> unified_odor_id example_ident = o_unified_odor_id (odors example_store ! 0)"
    by (simp add: example_ident_def example_store_def)
  from upsert_fill_only[OF h, of "[example_ident, example_ident]"] g t
  have "get_col COL_name (odors (foldl upsert_odor example_store [example_ident, example_ident]) ! 0)
       = Some ''acetophenone''"
    by blast
  with h g t n show ?thesis by blast
qed

section \<open>Inserting facts\<close>







lemma appends_ok_refl: "appends_ok c c"
  by (simp add: appends_ok_def)

lemma appends_ok_trans: "appends_ok a b \<Longrightarrow> appends_ok b c \<Longrightarrow> appends_ok a c"
  by (auto simp: appends_ok_def)

lemma appends_ok_execute_insert:
  "(vt = None) \<noteq> (vn = None) \<Longrightarrow> appends_ok conn (execute_insert conn ident s fn col vt vn)"
  by (auto simp: appends_ok_def execute_insert_def exactly_one_value_def)

lemma insert_fact_cases:
  "insert_fact rt conn ident s fn col v = conn
   \<or> (\<exists>x. insert_fact rt conn ident s fn col v = execute_insert conn ident s fn col None (Some x))
   \<or> (\<exists>t. insert_fact rt conn ident s fn col v = execute_insert conn ident s fn col (Some t) None)"
  by (auto simp: insert_fact_def split: option.splits)

lemma appends_ok_insert_fact: "appends_ok conn (insert_fact rt conn ident s fn col v)"
  using insert_fact_cases[of rt conn ident s fn col v]
  by (auto simp: appends_ok_refl intro: appends_ok_execute_insert)

lemma odors_execute_insert: "odors (execute_insert conn ident s fn col vt vn) = odors conn"
  by (simp add: execute_insert_def)

lemma odors_insert_fact: "odors (insert_fact rt conn ident s fn col v) = odors conn"
  using insert_fact_cases[of rt conn ident s fn col v]
  by (auto simp: odors_execute_insert)

lemma appends_ok_foldl:
  assumes "\<And>c x. appends_ok c (f c x)"
  shows "appends_ok c (foldl f c xs)"
proof (induction xs arbitrary: c)
  case Nil
  show ?case by (simp add: appends_ok_refl)
next
  case (Cons x xs)
  show ?case using assms[of c x] Cons[of "f c x"] by (auto intro: appends_ok_trans)
qed

lemma appends_ok_insert_row_as_facts:
  "appends_ok conn (insert_row_as_facts rt conn ident s fn row skip)"
proof (cases row)
  case None
  then show ?thesis by (simp add: insert_row_as_facts_def appends_ok_refl)
next
  case (Some r)
  then show ?thesis
    unfolding insert_row_as_facts_def
    by (simp, intro appends_ok_foldl) (simp add: appends_ok_refl appends_ok_insert_fact)
qed

lemma appends_ok_foldl_run:
  assumes "\<And>s x. appends_ok (conn_of s) (conn_of (f s x))"
  shows "appends_ok (conn_of s) (conn_of (foldl f s xs))"
proof (induction xs arbitrary: s)
  case Nil
  show ?case by (simp add: appends_ok_refl)
next
  case (Cons x xs)
  show ?case using assms[of s x] Cons[of "f s x"] by (auto intro: appends_ok_trans)
qed

lemma appends_ok_upsert_odor: "appends_ok conn (upsert_odor conn ident)"
  by (simp add: appends_ok_def facts_upsert_odor)

lemma conn_of_resolve_new:
  "\<exists>ident sr mr. conn_of (fst (resolve_new rt s stim_df mol_df stim_col st lbl)) =
     insert_row_as_facts rt
       (insert_row_as_facts rt (upsert_odor (conn_of st) ident) ident s ''stimuli.csv'' sr [stim_col])
       ident s ''molecules.csv'' mr [''CID'']"
  unfolding resolve_new_def Let_def by (simp; blast)

lemma appends_ok_resolve_new:
  "appends_ok (conn_of st) (conn_of (fst (resolve_new rt s stim_df mol_df stim_col st lbl)))"
proof -
  obtain ident sr mr where c: "conn_of (fst (resolve_new rt s stim_df mol_df stim_col st lbl)) =
     insert_row_as_facts rt
       (insert_row_as_facts rt (upsert_odor (conn_of st) ident) ident s ''stimuli.csv'' sr [stim_col])
       ident s ''molecules.csv'' mr [''CID'']"
    using conn_of_resolve_new by blast
  have 1: "appends_ok (conn_of st) (upsert_odor (conn_of st) ident)"
    by (rule appends_ok_upsert_odor)
  have 2: "appends_ok (upsert_odor (conn_of st) ident)
     (insert_row_as_facts rt (upsert_odor (conn_of st) ident) ident s ''stimuli.csv'' sr [stim_col])"
    by (rule appends_ok_insert_row_as_facts)
  have 3: "appends_ok
     (insert_row_as_facts rt (upsert_odor (conn_of st) ident) ident s ''stimuli.csv'' sr [stim_col])
     (insert_row_as_facts rt
       (insert_row_as_facts rt (upsert_odor (conn_of st) ident) ident s ''stimuli.csv'' sr [stim_col])
       ident s ''molecules.csv'' mr [''CID''])"
    by (rule appends_ok_insert_row_as_facts)
  from appends_ok_trans[OF appends_ok_trans[OF 1 2] 3] c show ?thesis by simp
qed

lemma appends_ok_insert_measurements:
  "appends_ok (conn_of st) (conn_of (insert_measurements rt s fname cols stim_col ident row st))"
  unfolding insert_measurements_def
  by (rule appends_ok_foldl_run) (simp add: appends_ok_refl appends_ok_insert_fact)

lemma appends_ok_ingest_row:
  "appends_ok (conn_of st) (conn_of (ingest_row rt s fname stim_df mol_df cols stim_col st row))"
proof (cases "safe_str rt (loc row stim_col)")
  case None
  then show ?thesis by (simp add: ingest_row_def appends_ok_refl)
next
  case (Some lbl)
  note lbl = this
  show ?thesis
  proof (cases "identity_cache st lbl")
    case None
    obtain st1 ident where r: "resolve_new rt s stim_df mol_df stim_col st lbl = (st1, ident)"
      by (cases "resolve_new rt s stim_df mol_df stim_col st lbl")
    have a: "appends_ok (conn_of st) (conn_of st1)"
      using appends_ok_resolve_new[of st rt s stim_df mol_df stim_col lbl] r by simp
    have b: "appends_ok (conn_of st1)
        (conn_of (insert_measurements rt s fname cols stim_col ident row st1))"
      by (rule appends_ok_insert_measurements)
    have "ingest_row rt s fname stim_df mol_df cols stim_col st row
        = insert_measurements rt s fname cols stim_col ident row st1"
      using lbl None r by (simp add: ingest_row_def)
    with appends_ok_trans[OF a b] show ?thesis by simp
  next
    case (Some ident)
    then have "ingest_row rt s fname stim_df mol_df cols stim_col st row
        = insert_measurements rt s fname cols stim_col ident row st"
      using lbl by (simp add: ingest_row_def)
    then show ?thesis by (simp add: appends_ok_insert_measurements)
  qed
qed

lemma appends_ok_rows:
  "appends_ok (conn_of st)
     (conn_of (foldl (ingest_row rt s fname stim_df mol_df cols stim_col) st rows))"
  by (rule appends_ok_foldl_run) (rule appends_ok_ingest_row)

lemma ingest_file_cases:
  "ingest_file rt s stim_df mol_df st entry = st
   \<or> (\<exists>fname cols stim_col rows.
        ingest_file rt s stim_df mol_df st entry
          = foldl (ingest_row rt s fname stim_df mol_df cols stim_col) st rows)"
  unfolding ingest_file_def Let_def
  by (cases entry) (simp split: option.splits, blast)

lemma appends_ok_ingest_file:
  "appends_ok (conn_of st) (conn_of (ingest_file rt s stim_df mol_df st entry))"
  using ingest_file_cases[of rt s stim_df mol_df st entry] appends_ok_rows[of st rt s]
  by (auto simp: appends_ok_refl)

lemma appends_ok_files:
  "appends_ok (conn_of st) (conn_of (foldl (ingest_file rt s stim_df mol_df) st entries))"
  by (rule appends_ok_foldl_run) (rule appends_ok_ingest_file)

lemma appends_ok_ingest_dataset: "appends_ok conn (ingest_dataset rt conn droot s)"
proof (cases "droot s")
  case None
  then show ?thesis by (simp add: ingest_dataset_def appends_ok_refl)
next
  case (Some d)
  show ?thesis
  proof (cases "count_behavior_rows d > MAX_ROWS_PER_DATASET")
    case True
    with Some show ?thesis
      by (simp add: ingest_dataset_def initialize_database_def appends_ok_refl)
  next
    case False
    from appends_ok_files[of "\<lparr>conn_of = conn, identity_cache = Map.empty, odors_seen = 0,
        facts_seen = 0\<rparr>" rt s "load_stimuli d" "load_molecules rt d" "sort_key fst d"]
    show ?thesis using Some False
      by (simp add: ingest_dataset_def initialize_database_def Let_def)
  qed
qed


text \<open>
  C4. Every fact row that \<open>insert_fact\<close> writes, and so every fact row that the ingestion of
  a dataset appends to the store, has exactly one of \<open>value_text\<close> and \<open>value_num\<close>
  non-null; a value that would leave both null appends no row.
\<close>

theorem written_facts_exactly_one_value:
  "(\<exists>new. odor_facts (insert_fact rt conn ident s fn col v) = odor_facts conn @ new
        \<and> length new \<le> 1 \<and> list_all exactly_one_value new)
   \<and> (\<exists>new. odor_facts (ingest_dataset rt conn droot s) = odor_facts conn @ new
        \<and> list_all exactly_one_value new)"
proof
  show "\<exists>new. odor_facts (insert_fact rt conn ident s fn col v) = odor_facts conn @ new
        \<and> length new \<le> 1 \<and> list_all exactly_one_value new"
    using insert_fact_cases[of rt conn ident s fn col v]
    by (auto simp: execute_insert_def exactly_one_value_def)
  show "\<exists>new. odor_facts (ingest_dataset rt conn droot s) = odor_facts conn @ new
        \<and> list_all exactly_one_value new"
    using appends_ok_ingest_dataset[of conn rt droot s] by (simp add: appends_ok_def)
qed

theorem written_facts_exactly_one_value_witness:
  "(\<exists>new. odor_facts (insert_fact example_runtime example_store example_ident ''big'' ''behavior_1.csv''
              ''descriptor'' (CStr ''citrus'')) = odor_facts example_store @ new
        \<and> length new \<le> 1 \<and> list_all exactly_one_value new)
   \<and> (\<exists>new. odor_facts (ingest_dataset example_runtime example_store [''big'' \<mapsto> big_folder] ''big'')
              = odor_facts example_store @ new
        \<and> list_all exactly_one_value new)"
  by (rule written_facts_exactly_one_value[where rt = example_runtime and conn = example_store
        and ident = example_ident and s = "''big''" and fn = "''behavior_1.csv''"
        and col = "''descriptor''" and v = "CStr ''citrus''" and droot = "[''big'' \<mapsto> big_folder]"])

section \<open>The row-count gate\<close>


lemma count_loop_sum: "count_loop tot d = tot + sum_list (map behavior_rows d)"
  by (induction tot d rule: count_loop.induct) (auto simp: behavior_rows_def split: option.splits)


text \<open>
  C5. When the rows of a dataset folder, summed over its files named \<open>behavior*.csv\<close>
  (any case), exceed 5000, ingesting the dataset returns the store as it was: no odor row
  and no fact row is written.
\<close>

theorem oversized_dataset_skipped:
  assumes "droot s = Some d" and "sum_list (map behavior_rows d) > 5000"
  shows "ingest_dataset rt conn droot s = conn"
  using assms
  by (simp add: ingest_dataset_def count_behavior_rows_def count_loop_sum MAX_ROWS_PER_DATASET_def
      initialize_database_def Let_def)

lemma big_folder_rows: "sum_list (map behavior_rows big_folder) = 5001"
  by (simp add: big_folder_def behavior_rows_def is_behavior_csv_def startswith_def endswith_def
      string_eval)

theorem oversized_dataset_skipped_witness:
  "[''big'' \<mapsto> big_folder] ''big'' = Some big_folder
   \<and> sum_list (map behavior_rows big_folder) > 5000
   \<and> ingest_dataset example_runtime example_store [''big'' \<mapsto> big_folder] ''big'' = example_store"
proof -
  have h1: "[''big'' \<mapsto> big_folder] ''big'' = Some big_folder" by simp
  have h2: "sum_list (map behavior_rows big_folder) > 5000" by (simp add: big_folder_rows)
  from oversized_dataset_skipped[where droot = "[''big'' \<mapsto> big_folder]" and s = "''big''"
      and d = big_folder and rt = example_runtime and conn = example_store, OF h1 h2] h1 h2
  show ?thesis by blast
qed

section \<open>Names of identities\<close>

lemma named_set_col: "o_name r \<noteq> None \<Longrightarrow> o_name (set_col c (Some v) r) \<noteq> None"
  by (cases c) simp_all

lemma named_update_if_blank:
  assumes "\<forall>r \<in> set (odors conn). o_unified_odor_id r = u \<longrightarrow> o_name r \<noteq> None"
  shows "\<forall>r \<in> set (odors (update_if_blank conn col v uid)). o_unified_odor_id r = u \<longrightarrow> o_name r \<noteq> None"
proof
  fix r'
  assume "r' \<in> set (odors (update_if_blank conn col v uid))"
  then obtain r where r: "r \<in> set (odors conn)"
    and r': "r' = r \<or> r' = set_col col (Some v) r"
    by (auto simp: odors_update_if_blank)
  from r' show "o_unified_odor_id r' = u \<longrightarrow> o_name r' \<noteq> None"
  proof
    assume "r' = r"
    with assms r show ?thesis by blast
  next
    assume s: "r' = set_col col (Some v) r"
    show ?thesis
    proof
      assume "o_unified_odor_id r' = u"
      with s have "o_unified_odor_id r = u" by (simp add: set_col_keys)
      with assms r have "o_name r \<noteq> None" by blast
      with s show "o_name r' \<noteq> None" using named_set_col by blast
    qed
  qed
qed

lemma named_fill_fields:
  "\<forall>r \<in> set (odors conn). o_unified_odor_id r = u \<longrightarrow> o_name r \<noteq> None \<Longrightarrow>
   \<forall>r \<in> set (odors (fill_fields conn uid fs)). o_unified_odor_id r = u \<longrightarrow> o_name r \<noteq> None"
proof (induction conn uid fs rule: fill_fields.induct)
  case (1 conn uid)
  then show ?case by simp
next
  case (2 conn uid col rest)
  then show ?case by simp
next
  case (3 conn uid col v rest)
  have "\<forall>r \<in> set (odors (update_if_blank conn col v uid)). o_unified_odor_id r = u \<longrightarrow> o_name r \<noteq> None"
    by (rule named_update_if_blank[OF "3.prems"])
  from "3.IH"[OF this] show ?case by simp
qed

lemma named_after_name_update:
  "\<forall>r \<in> set (odors (update_if_blank conn COL_name n uid)). o_unified_odor_id r = uid \<longrightarrow> o_name r \<noteq> None"
proof
  fix r'
  assume "r' \<in> set (odors (update_if_blank conn COL_name n uid))"
  then have "r' \<in> (\<lambda>r. if o_unified_odor_id r = uid \<and> null_or_blank (o_name r)
                       then r\<lparr>o_name := Some n\<rparr> else r) ` set (odors conn)"
    by (simp add: odors_update_if_blank)
  then obtain r where r': "r' = (if o_unified_odor_id r = uid \<and> null_or_blank (o_name r)
                                 then r\<lparr>o_name := Some n\<rparr> else r)"
    by blast
  show "o_unified_odor_id r' = uid \<longrightarrow> o_name r' \<noteq> None"
  proof (cases "o_unified_odor_id r = uid \<and> null_or_blank (o_name r)")
    case True
    with r' show ?thesis by simp
  next
    case False
    with r' have "r' = r" by simp
    with False show ?thesis by (cases "o_name r") (auto simp: null_or_blank_def)
  qed
qed

lemma named_upsert_odor:
  assumes "name ident = Some n"
  shows "\<forall>r \<in> set (odors (upsert_odor conn ident)).
           o_unified_odor_id r = unified_odor_id ident \<longrightarrow> o_name r \<noteq> None"
proof -
  have "upsert_odor conn ident =
      fill_fields (update_if_blank (insert_or_ignore conn ident) COL_name n (unified_odor_id ident))
        (unified_odor_id ident)
        [(COL_cid, cid ident), (COL_cas, cas ident), (COL_smiles, smiles ident)]"
    by (simp add: upsert_odor_def assms)
  then show ?thesis
    using named_fill_fields[OF named_after_name_update] by simp
qed

lemma name_identity_from_rows:
  "name (identity_from_rows rt s l sr mr) =
     (case first_then rt NAME_CANDIDATES mr sr of Some n \<Rightarrow> Some n | None \<Rightarrow> Some l)"
  by (simp add: identity_from_rows_def Let_def)


text \<open>
  C9. The identity built from a stimulus label and its rows always has a name; when no name
  candidate resolves in the molecule row or the stimulus row, the name is the raw stimulus
  label. After the identity is upserted, every odor row with its key has a non-null name.
\<close>

theorem identity_name_never_null:
  "name (identity_from_rows rt s l sr mr) \<noteq> None
   \<and> (first_then rt NAME_CANDIDATES mr sr = None \<longrightarrow> name (identity_from_rows rt s l sr mr) = Some l)
   \<and> (\<forall>r \<in> set (odors (upsert_odor conn (identity_from_rows rt s l sr mr))).
        o_unified_odor_id r = unified_odor_id (identity_from_rows rt s l sr mr) \<longrightarrow> o_name r \<noteq> None)"
proof -
  obtain n where n: "name (identity_from_rows rt s l sr mr) = Some n"
    by (cases "first_then rt NAME_CANDIDATES mr sr") (simp_all add: name_identity_from_rows)
  have "first_then rt NAME_CANDIDATES mr sr = None \<longrightarrow> name (identity_from_rows rt s l sr mr) = Some l"
    by (simp add: name_identity_from_rows)
  with n named_upsert_odor[OF n, of conn] show ?thesis by simp
qed

theorem identity_name_never_null_witness:
  "first_then example_runtime NAME_CANDIDATES None None = None
   \<and> name (identity_from_rows example_runtime ''d'' ''x'' None None) = Some ''x''
   \<and> (\<exists>r \<in> set (odors (upsert_odor empty_store (identity_from_rows example_runtime ''d'' ''x'' None None))).
        o_unified_odor_id r = unified_odor_id (identity_from_rows example_runtime ''d'' ''x'' None None)
        \<and> o_name r \<noteq> None)"
proof -
  note t = identity_name_never_null[where rt = example_runtime and s = "''d''" and l = "''x''"
      and sr = None and mr = None and conn = empty_store]
  have f: "first_then example_runtime NAME_CANDIDATES None None = None"
    by (simp add: first_then_def)
  have n: "name (identity_from_rows example_runtime ''d'' ''x'' None None) = Some ''x''"
    by (rule conjunct1[OF conjunct2[OF t], THEN mp, OF f])
  have e: "odors (upsert_odor empty_store (identity_from_rows example_runtime ''d'' ''x'' None None))
      = [\<lparr>o_unified_odor_id = ''OID:d:x'', o_slug_first = Some ''d'', o_stimulus_first = Some ''x'',
          o_name = Some ''x'', o_cid = None, o_cas = None, o_smiles = None\<rparr>]"
    by (simp add: upsert_odor_def insert_or_ignore_def empty_store_def identity_from_rows_def
        resolve_cid_def first_then_def update_if_blank_def null_or_blank_def sql_trim_def)
  have u: "unified_odor_id (identity_from_rows example_runtime ''d'' ''x'' None None) = ''OID:d:x''"
    by (simp add: identity_from_rows_def resolve_cid_def first_then_def)
  define r where "r = \<lparr>o_unified_odor_id = ''OID:d:x'', o_slug_first = Some ''d'',
      o_stimulus_first = Some ''x'', o_name = Some ''x'', o_cid = None, o_cas = None, o_smiles = None\<rparr>"
  have m: "r \<in> set (odors (upsert_odor empty_store
      (identity_from_rows example_runtime ''d'' ''x'' None None)))"
    unfolding e r_def by simp
  have k: "o_unified_odor_id r = unified_odor_id (identity_from_rows example_runtime ''d'' ''x'' None None)"
    unfolding u r_def by simp
  from bspec[OF conjunct2[OF conjunct2[OF t]] m] k have "o_name r \<noteq> None" by (rule mp)
  with m k have "\<exists>r \<in> set (odors (upsert_odor empty_store
        (identity_from_rows example_runtime ''d'' ''x'' None None))).
        o_unified_odor_id r = unified_odor_id (identity_from_rows example_runtime ''d'' ''x'' None None)
        \<and> o_name r \<noteq> None" by blast
  with f n show ?thesis by (intro conjI)
qed

section \<open>The wide view\<close>






lemma ex_agg_text:
  "details_section_agg example_runtime [CStr ''sweet'', CFloat (Fin 3.2), CStr ''citrus'', CStr ''sweet'']
     = CStr ''3.2; citrus; sweet''"
  by (simp add: details_section_agg_def example_runtime_def)


section \<open>Measurement rows without a stimulus\<close>


lemma foldl_skip:
  assumes "f st x = st"
  shows "foldl f st (x # xs) = foldl f st xs"
  using assms by simp








section \<open>Enrichment from the stimulus and molecule rows\<close>






































section \<open>Descriptor search\<close>

lemma like_percent: "like (CHR ''%'' # ps) s \<longleftrightarrow> (\<exists>k \<le> length s. like ps (drop k s))"
proof (induction s)
  case Nil
  show ?case by simp
next
  case (Cons c cs)
  have "(\<exists>k \<le> length (c # cs). like ps (drop k (c # cs)))
      \<longleftrightarrow> like ps (c # cs) \<or> (\<exists>k \<le> length cs. like ps (drop k cs))"
  proof
    assume "\<exists>k \<le> length (c # cs). like ps (drop k (c # cs))"
    then obtain k where k: "k \<le> length (c # cs)" "like ps (drop k (c # cs))" by blast
    show "like ps (c # cs) \<or> (\<exists>k \<le> length cs. like ps (drop k cs))"
    proof (cases k)
      case 0
      with k show ?thesis by simp
    next
      case (Suc j)
      with k have "j \<le> length cs" "like ps (drop j cs)" by simp_all
      then show ?thesis by blast
    qed
  next
    assume "like ps (c # cs) \<or> (\<exists>k \<le> length cs. like ps (drop k cs))"
    then show "\<exists>k \<le> length (c # cs). like ps (drop k (c # cs))"
    proof
      assume "like ps (c # cs)"
      then have "0 \<le> length (c # cs) \<and> like ps (drop 0 (c # cs))" by simp
      then show ?thesis by blast
    next
      assume "\<exists>k \<le> length cs. like ps (drop k cs)"
      then obtain k where "k \<le> length cs" "like ps (drop k cs)" by blast
      then have "Suc k \<le> length (c # cs) \<and> like ps (drop (Suc k) (c # cs))" by simp
      then show ?thesis by blast
    qed
  qed
  with Cons show ?case by simp
qed

lemma like_only_percent: "like ''%'' s"
proof -
  have "length s \<le> length s \<and> like [] (drop (length s) s)" by simp
  then show ?thesis unfolding like_percent by blast
qed

lemma like_literal:
  assumes "\<forall>c \<in> set p. c \<noteq> CHR ''%'' \<and> c \<noteq> CHR ''_'' \<and> lower_char c = c"
    and "\<forall>c \<in> set s. lower_char c = c"
  shows "like (p @ ''%'') s \<longleftrightarrow> take (length p) s = p"
  using assms
proof (induction p arbitrary: s)
  case Nil
  show ?case by (simp add: like_only_percent)
next
  case (Cons x xs)
  show ?case
  proof (cases s)
    case Nil
    with Cons.prems show ?thesis by simp
  next
    case (Cons c cs)
    from Cons.prems(1) have x: "x \<noteq> CHR ''%''" "x \<noteq> CHR ''_''" "lower_char x = x" by simp_all
    from Cons.prems(2) Cons have c: "lower_char c = c" by simp
    have ih: "like (xs @ ''%'') cs \<longleftrightarrow> take (length xs) cs = xs"
      using Cons.IH[of cs] Cons.prems Cons by simp
    show ?thesis using x c ih Cons by auto
  qed
qed

lemma is_substring_iff:
  "is_substring t s \<longleftrightarrow> (\<exists>k \<le> length s. take (length t) (drop k s) = t)"
proof (induction s)
  case Nil
  show ?case by auto
next
  case (Cons c cs)
  have "(\<exists>k \<le> length (c # cs). take (length t) (drop k (c # cs)) = t)
      \<longleftrightarrow> take (length t) (c # cs) = t \<or> (\<exists>k \<le> length cs. take (length t) (drop k cs) = t)"
  proof
    assume "\<exists>k \<le> length (c # cs). take (length t) (drop k (c # cs)) = t"
    then obtain k where k: "k \<le> length (c # cs)" "take (length t) (drop k (c # cs)) = t" by blast
    show "take (length t) (c # cs) = t \<or> (\<exists>k \<le> length cs. take (length t) (drop k cs) = t)"
    proof (cases k)
      case 0
      with k show ?thesis by simp
    next
      case (Suc j)
      with k have "j \<le> length cs" "take (length t) (drop j cs) = t" by simp_all
      then show ?thesis by blast
    qed
  next
    assume "take (length t) (c # cs) = t \<or> (\<exists>k \<le> length cs. take (length t) (drop k cs) = t)"
    then show "\<exists>k \<le> length (c # cs). take (length t) (drop k (c # cs)) = t"
    proof
      assume "take (length t) (c # cs) = t"
      then have "0 \<le> length (c # cs) \<and> take (length t) (drop 0 (c # cs)) = t" by simp
      then show ?thesis by blast
    next
      assume "\<exists>k \<le> length cs. take (length t) (drop k cs) = t"
      then obtain k where "k \<le> length cs" "take (length t) (drop k cs) = t" by blast
      then have "Suc k \<le> length (c # cs) \<and> take (length t) (drop (Suc k) (c # cs)) = t" by simp
      then show ?thesis by blast
    qed
  qed
  with Cons show ?case by (simp add: startswith_def)
qed

lemma like_contains:
  assumes "\<forall>c \<in> set p. c \<noteq> CHR ''%'' \<and> c \<noteq> CHR ''_'' \<and> lower_char c = c"
    and "\<forall>c \<in> set s. lower_char c = c"
  shows "like (CHR ''%'' # p @ ''%'') s \<longleftrightarrow> is_substring p s"
proof -
  have "like (p @ ''%'') (drop k s) \<longleftrightarrow> take (length p) (drop k s) = p" for k
    using assms(2) by (intro like_literal[OF assms(1)]) (auto dest: in_set_dropD)
  then show ?thesis
    unfolding like_percent is_substring_iff by simp
qed

lemma lower_char_idem: "lower_char (lower_char c) = lower_char c"
  by (auto simp: lower_char_def Let_def)

lemma lower_char_wild:
  "lower_char c = CHR ''%'' \<longleftrightarrow> c = CHR ''%''" "lower_char c = CHR ''_'' \<longleftrightarrow> c = CHR ''_''"
proof -
  have u: "65 \<le> (of_char c :: nat) \<and> (of_char c :: nat) \<le> 90 \<Longrightarrow>
      (of_char (lower_char c) :: nat) = of_char c + 32"
    by (simp add: lower_char_def)
  have p: "(of_char (CHR ''%'') :: nat) = 37" "(of_char (CHR ''_'') :: nat) = 95" by simp_all
  show "lower_char c = CHR ''%'' \<longleftrightarrow> c = CHR ''%''"
  proof (cases "65 \<le> (of_char c :: nat) \<and> (of_char c :: nat) \<le> 90")
    case True
    from u[OF True] True have "(of_char (lower_char c) :: nat) \<noteq> 37" by linarith
    moreover from True have "(of_char c :: nat) \<noteq> 37" by linarith
    ultimately show ?thesis using p by metis
  next
    case False
    then show ?thesis by (auto simp: lower_char_def Let_def)
  qed
  show "lower_char c = CHR ''_'' \<longleftrightarrow> c = CHR ''_''"
  proof (cases "65 \<le> (of_char c :: nat) \<and> (of_char c :: nat) \<le> 90")
    case True
    from u[OF True] True have "(of_char (lower_char c) :: nat) \<noteq> 95" by linarith
    moreover from True have "(of_char c :: nat) \<noteq> 95" by linarith
    ultimately show ?thesis using p by metis
  next
    case False
    then show ?thesis by (auto simp: lower_char_def Let_def)
  qed
qed

lemma lower_fixed: "\<forall>c \<in> set (lower s). lower_char c = c"
  by (auto simp: lower_def lower_char_idem)

lemma lower_pattern:
  assumes "CHR ''%'' \<notin> set q" and "CHR ''_'' \<notin> set q"
  shows "\<forall>c \<in> set (lower q). c \<noteq> CHR ''%'' \<and> c \<noteq> CHR ''_'' \<and> lower_char c = c"
  using assms by (auto simp: lower_def lower_char_idem lower_char_wild)

lemma lower_wrapped: "lower (''%'' @ q @ ''%'') = CHR ''%'' # lower q @ ''%''"
  by (simp add: lower_def lower_char_wild)

lemma descriptor_pattern:
  "like ''%descriptor%'' (lower col) \<longleftrightarrow> is_substring ''descriptor'' (lower col)"
proof -
  have "\<forall>c \<in> set ''descriptor''. c \<noteq> CHR ''%'' \<and> c \<noteq> CHR ''_'' \<and> lower_char c = c"
    by (simp add: lower_char_def)
  from like_contains[OF this lower_fixed, of col] show ?thesis by simp
qed

lemma fact_matches_spec:
  assumes "py_strip text \<noteq> []" and "CHR ''%'' \<notin> set (py_strip text)"
    and "CHR ''_'' \<notin> set (py_strip text)" and "dataset \<noteq> Some []"
  shows "fact_matches (''%'' @ py_strip text @ ''%'') dataset f
     \<longleftrightarrow> spec_fact_matches (py_strip text) dataset f"
proof -
  let ?q = "py_strip text"
  have pat: "\<forall>c \<in> set (lower ?q). c \<noteq> CHR ''%'' \<and> c \<noteq> CHR ''_'' \<and> lower_char c = c"
    by (rule lower_pattern[OF assms(2,3)])
  have ne: "lower ?q \<noteq> []" using assms(1) by (simp add: lower_def)
  have w: "lower (''%'' @ ?q @ ''%'') = CHR ''%'' # lower ?q @ ''%''"
    by (simp add: lower_def lower_char_wild)
  have v: "like (lower (''%'' @ ?q @ ''%'')) (case f_value_text f of Some t \<Rightarrow> lower t | None \<Rightarrow> [])
      \<longleftrightarrow> (case f_value_text f of None \<Rightarrow> False | Some tv \<Rightarrow> is_substring (lower ?q) (lower tv))"
  proof (cases "f_value_text f")
    case None
    have a: "like (CHR ''%'' # lower ?q @ ''%'') [] \<longleftrightarrow> is_substring (lower ?q) []"
      by (rule like_contains[OF pat]) simp
    have b: "\<not> is_substring (lower ?q) []" using ne by simp
    from a b have "\<not> like (CHR ''%'' # lower ?q @ ''%'') []" by blast
    then show ?thesis unfolding w None by simp
  next
    case (Some tv)
    have "like (CHR ''%'' # lower ?q @ ''%'') (lower tv) \<longleftrightarrow> is_substring (lower ?q) (lower tv)"
      by (rule like_contains[OF pat lower_fixed])
    then show ?thesis unfolding w Some by simp
  qed
  have d: "(case dataset of None \<Rightarrow> True | Some d \<Rightarrow> (if d \<noteq> [] then f_slug f = d else True))
      \<longleftrightarrow> (case dataset of None \<Rightarrow> True | Some d \<Rightarrow> f_slug f = d)"
    using assms(4) by (cases dataset) auto
  show ?thesis
    unfolding fact_matches_def spec_fact_matches_def
    by (simp only: descriptor_pattern v d)
qed

lemma set_joined:
  "set (concat (map (\<lambda>o_row. map (\<lambda>f. (o_row, f))
          (filter (\<lambda>f. f_unified_odor_id f = o_unified_odor_id o_row) fs)) os))
   = {(o_row, f). o_row \<in> set os \<and> f \<in> set fs \<and> f_unified_odor_id f = o_unified_odor_id o_row}"
  by auto

lemma descriptor_search_unlimited:
  "descriptor_search conn text dataset None
     = sort_key order_key (remdups (map fst (filter
         (\<lambda>(o_row, f). fact_matches (''%'' @ py_strip text @ ''%'') dataset f)
         (concat (map (\<lambda>o_row. map (\<lambda>f. (o_row, f))
            (filter (\<lambda>f. f_unified_odor_id f = o_unified_odor_id o_row) (odor_facts conn)))
          (odors conn))))))"
  by (simp add: descriptor_search_def Let_def)

lemma set_descriptor_search:
  "set (descriptor_search conn text dataset None)
     = {o_row \<in> set (odors conn). \<exists>f \<in> set (odor_facts conn).
          f_unified_odor_id f = o_unified_odor_id o_row
          \<and> fact_matches (''%'' @ py_strip text @ ''%'') dataset f}"
  unfolding descriptor_search_unlimited
  by (simp only: set_sort set_remdups set_map set_filter set_joined) force

lemma descriptor_search_limit:
  "set (descriptor_search conn text dataset limit) \<subseteq> set (descriptor_search conn text dataset None)"
  by (cases limit) (auto simp: descriptor_search_def Let_def dest: in_set_takeD)


text \<open>
  C7 (as amended). For a search text whose trimmed form is non-empty and contains neither
  \<open>%\<close> nor \<open>_\<close>, and a dataset argument that is absent or a non-empty slug, the search
  without a limit returns, each once, exactly the odor rows that have a fact whose column name
  contains \<open>descriptor\<close> and whose text value contains the trimmed search text (both up to
  ASCII case), restricted to the dataset when one is given; a fact with no text value never
  makes an odor match. With a limit the result is a part of that.
\<close>

theorem descriptor_search_exact:
  assumes "py_strip text \<noteq> []" and "CHR ''%'' \<notin> set (py_strip text)"
    and "CHR ''_'' \<notin> set (py_strip text)" and "dataset \<noteq> Some []"
  shows "set (descriptor_search conn text dataset None)
       = {o_row \<in> set (odors conn). \<exists>f \<in> set (odor_facts conn).
            f_unified_odor_id f = o_unified_odor_id o_row
            \<and> spec_fact_matches (py_strip text) dataset f}
     \<and> distinct (descriptor_search conn text dataset None)
     \<and> set (descriptor_search conn text dataset limit) \<subseteq> set (descriptor_search conn text dataset None)"
proof (intro conjI)
  show "set (descriptor_search conn text dataset None)
       = {o_row \<in> set (odors conn). \<exists>f \<in> set (odor_facts conn).
            f_unified_odor_id f = o_unified_odor_id o_row
            \<and> spec_fact_matches (py_strip text) dataset f}"
    unfolding set_descriptor_search by (simp only: fact_matches_spec[OF assms])
  show "distinct (descriptor_search conn text dataset None)"
    unfolding descriptor_search_unlimited by simp
  show "set (descriptor_search conn text dataset limit) \<subseteq> set (descriptor_search conn text dataset None)"
    by (rule descriptor_search_limit)
qed

lemma descriptor_search_example:
  "descriptor_search citrus_store '' CITRUS '' None None = [citrus_odor]"
  by (simp add: descriptor_search_def fact_matches_def citrus_store_def numeric_store_def
      citrus_odor_def string_eval)

theorem descriptor_search_exact_witness:
  "py_strip '' CITRUS '' \<noteq> [] \<and> CHR ''%'' \<notin> set (py_strip '' CITRUS '')
   \<and> CHR ''_'' \<notin> set (py_strip '' CITRUS '') \<and> (None :: string option) \<noteq> Some []
   \<and> set (descriptor_search citrus_store '' CITRUS '' None None)
       = {o_row \<in> set (odors citrus_store). \<exists>f \<in> set (odor_facts citrus_store).
            f_unified_odor_id f = o_unified_odor_id o_row
            \<and> spec_fact_matches (py_strip '' CITRUS '') None f}
   \<and> distinct (descriptor_search citrus_store '' CITRUS '' None None)"
proof -
  have s: "py_strip '' CITRUS '' = ''CITRUS''" by (simp add: string_eval)
  have h1: "py_strip '' CITRUS '' \<noteq> []" by (simp add: s)
  have h2: "CHR ''%'' \<notin> set (py_strip '' CITRUS '')" by (simp add: s)
  have h3: "CHR ''_'' \<notin> set (py_strip '' CITRUS '')" by (simp add: s)
  have h4: "(None :: string option) \<noteq> Some []" by simp
  note t = descriptor_search_exact[of "'' CITRUS ''" None citrus_store None, OF h1 h2 h3 h4]
  from conjunct1[OF t] conjunct1[OF conjunct2[OF t]] h1 h2 h3 h4 show ?thesis by (intro conjI)
qed

text \<open>
  The claim as stated fails in two ways. The search text is trimmed before it is matched:
  no text value of \<open>citrus_store\<close> contains \<open>" CITRUS "\<close> with its spaces, and the
  search still returns the odor described as \<open>Sweet; Citrus\<close>. And the text reaches
  \<open>LIKE\<close> unescaped: \<open>%\<close> and a single space give patterns that match the empty string,
  to which a missing text value is coalesced, so an odor whose only descriptor-like fact is
  numeric is returned.
\<close>

theorem descriptor_search_wildcard_counterexample:
  "filter (spec_fact_matches '' CITRUS '' None) (odor_facts citrus_store) = []
   \<and> descriptor_search citrus_store '' CITRUS '' None None = [citrus_odor]
   \<and> map f_value_text (odor_facts numeric_store) = [None]
   \<and> descriptor_search numeric_store ''%'' None None = odors numeric_store
   \<and> descriptor_search numeric_store '' '' None None = odors numeric_store
   \<and> odors numeric_store \<noteq> []"
proof -
  have a: "filter (spec_fact_matches '' CITRUS '' None) (odor_facts citrus_store) = []"
    by (simp add: spec_fact_matches_def citrus_store_def numeric_store_def startswith_def string_eval)
  have b: "map f_value_text (odor_facts numeric_store) = [None]
      \<and> descriptor_search numeric_store ''%'' None None = odors numeric_store
      \<and> descriptor_search numeric_store '' '' None None = odors numeric_store
      \<and> odors numeric_store \<noteq> []"
    by (simp add: descriptor_search_def fact_matches_def numeric_store_def string_eval)
  from a descriptor_search_example b show ?thesis by (intro conjI) simp_all
qed

end
